theory Spec2Isabelle
  imports Complex_Main
begin

unbundle bit_operations_syntax

section \<open>Errors and values\<close>

text \<open>
  The exceptions the modelled code can raise. \<open>RuntimeError\<close> is what the tensor
  library raises for a shape that does not broadcast, for a tensor of no or of several
  elements used as a truth value, and for an inconsistent \<open>arange\<close>.
\<close>

datatype py_error = RuntimeError | IndexError | KeyError | ValueError | ZeroDivisionError

text \<open>
  A floating-point result: a finite value, infinity or not-a-number. Quotients are kept
  exact (a real number); rounding to the float format is outside this model.
\<close>

datatype fval = Nan | PosInf | Fin real

section \<open>The generation loop (\<open>Reader.predict\<close>, networks/cnn_tranformer.py)\<close>

text \<open>The attributes of \<open>Reader\<close> that \<open>predict\<close> reads.\<close>

record reader =
  max_output_len :: int
  start_index :: int
  end_index :: int
  pad_index :: int

text \<open>
  The output buffer: one row per batch element. A list of rows does not record the
  number of columns when there is no row, so the functions that need it take it from
  \<open>max_output_len\<close>.
\<close>

type_synonym buffer = "int list list"

definition ncols :: "reader \<Rightarrow> nat" where
  "ncols rd = nat (max_output_len rd)"

text \<open>
  Lines 180-181: \<open>torch.ones((bsz, max_output_len))\<close>, then \<open>output[:, 0] = start_index\<close>.
  A negative size is refused by \<open>torch.ones\<close>; column 0 of a buffer without columns
  is out of range.
\<close>

definition init_output :: "reader \<Rightarrow> nat \<Rightarrow> py_error + buffer" where
  "init_output rd bsz =
     (if max_output_len rd < 0 then Inl RuntimeError
      else if max_output_len rd = 0 then Inl IndexError
      else Inr (map (\<lambda>row. row[0 := start_index rd])
                  (replicate bsz (replicate (ncols rd) 1))))"

text \<open>
  Lines 184-187. The network (\<open>decode\<close>, the arg-max) is not part of this model: the
  step decoder is a parameter that maps the prefix \<open>output[:, :i]\<close> to the token written
  into column \<open>i\<close> of every row. A result of the wrong length does not fit the column.
  (The docstring of \<open>decode\<close> and the comments of the loop disagree on the order of the
  dimensions of \<open>tokens\<close>, which decides what \<open>tokens[-1:]\<close> selects; for one batch
  element at step 1 both readings give the single arg-max token, as here.)
\<close>

type_synonym step_decoder = "buffer \<Rightarrow> int list"

definition write_tokens :: "nat \<Rightarrow> int list \<Rightarrow> buffer \<Rightarrow> py_error + buffer" where
  "write_tokens i toks output =
     (if length toks \<noteq> length output then Inl RuntimeError
      else Inr (map2 (\<lambda>row t. row[i := t]) output toks))"

text \<open>Tensor operations used by the two conditions of \<open>predict\<close>.\<close>

definition column :: "nat \<Rightarrow> buffer \<Rightarrow> int list" where
  "column j output = map (\<lambda>row. row ! j) output"

definition or_scalar :: "int \<Rightarrow> buffer \<Rightarrow> buffer" where
  "or_scalar e rows = map (map (\<lambda>v. e OR v)) rows"

definition eq_scalar :: "buffer \<Rightarrow> int \<Rightarrow> bool list list" where
  "eq_scalar rows p = map (map (\<lambda>v. v = p)) rows"

text \<open>
  \<open>a == b\<close> for a vector \<open>a\<close> and a matrix \<open>b\<close> of \<open>n\<close> columns. Broadcasting
  aligns the vector with the columns: the sizes must agree or one of them must be 1.
\<close>

definition eq_vec_mat :: "nat \<Rightarrow> int list \<Rightarrow> buffer \<Rightarrow> py_error + bool list list" where
  "eq_vec_mat n a b =
     (if length a = n then Inr (map (\<lambda>row. map2 (=) a row) b)
      else if length a = 1 then Inr (map (\<lambda>row. map (\<lambda>v. a ! 0 = v) row) b)
      else if n = 1 then Inr (map (\<lambda>row. map (\<lambda>x. x = row ! 0) a) b)
      else Inl RuntimeError)"

text \<open>
  The truth value of a tensor, given its elements: defined for exactly one element.
\<close>

definition tensor_bool :: "bool list \<Rightarrow> py_error + bool" where
  "tensor_bool elems = (case elems of [x] \<Rightarrow> Inr x | _ \<Rightarrow> Inl RuntimeError)"

definition tensor_all :: "bool list \<Rightarrow> bool" where
  "tensor_all elems = list_all (\<lambda>x. x) elems"

text \<open>
  Lines 190-192, the early-stop condition
  \<^verbatim>\<open>(output[:, i - 1] == self.end_index | output[: i - 1] == self.pad_index).all()\<close>.
  In Python \<open>|\<close> binds tighter than \<open>==\<close>, and \<open>x == y == z\<close> is the chained
  comparison \<open>x == y and y == z\<close> with \<open>y\<close> evaluated once. So the condition is
  \<open>a == b and b == pad_index\<close> with \<open>a = output[:, i - 1]\<close> (a column) and
  \<open>b = end_index | output[: i - 1]\<close> (the first \<open>i - 1\<close> rows, there is no comma
  in the second subscript). \<open>and\<close> takes the truth value of \<open>a == b\<close>, and yields
  \<open>a == b\<close> itself when that is false.
\<close>

definition early_stop :: "reader \<Rightarrow> buffer \<Rightarrow> nat \<Rightarrow> py_error + bool" where
  "early_stop rd output i =
     (let a = column (i - 1) output;
          b = or_scalar (end_index rd) (take (i - 1) output)
      in case eq_vec_mat (ncols rd) a b of
           Inl e \<Rightarrow> Inl e
         | Inr t1 \<Rightarrow>
             (case tensor_bool (concat t1) of
                Inl e \<Rightarrow> Inl e
              | Inr c \<Rightarrow>
                  if c then Inr (tensor_all (concat (eq_scalar b (pad_index rd))))
                  else Inr (tensor_all (concat t1))))"

text \<open>Lines 183-193: the loop over \<open>range(1, max_output_len)\<close>, with its \<open>break\<close>.\<close>

fun generate :: "reader \<Rightarrow> step_decoder \<Rightarrow> nat list \<Rightarrow> buffer \<Rightarrow> py_error + buffer" where
  "generate rd dec [] output = Inr output"
| "generate rd dec (i # rest) output =
     (case write_tokens i (dec (map (take i) output)) output of
        Inl e \<Rightarrow> Inl e
      | Inr output' \<Rightarrow>
          (case early_stop rd output' i of
             Inl e \<Rightarrow> Inl e
           | Inr stop \<Rightarrow> if stop then Inr output' else generate rd dec rest output'))"

text \<open>
  Lines 197-200, one step of the masking pass:
  \<^verbatim>\<open>idx = (output[:, i - 1] == self.end_index | output[:, i - 1] == self.pad_index)\<close>
  parses the same way, \<open>a == b and b == pad_index\<close> with \<open>b = end_index | a\<close>; then
  \<open>output[idx, i] = pad_index\<close> writes the rows selected by the mask.
\<close>

definition mask_step :: "reader \<Rightarrow> buffer \<Rightarrow> nat \<Rightarrow> py_error + buffer" where
  "mask_step rd output i =
     (let a = column (i - 1) output;
          b = map (\<lambda>v. end_index rd OR v) a;
          t1 = map2 (=) a b
      in case tensor_bool t1 of
           Inl e \<Rightarrow> Inl e
         | Inr c \<Rightarrow>
             (let idx = (if c then map (\<lambda>v. v = pad_index rd) b else t1)
              in Inr (map2 (\<lambda>m row. if m then row[i := pad_index rd] else row) idx output)))"

fun mask_pass :: "reader \<Rightarrow> nat list \<Rightarrow> buffer \<Rightarrow> py_error + buffer" where
  "mask_pass rd [] output = Inr output"
| "mask_pass rd (i # rest) output =
     (case mask_step rd output i of
        Inl e \<Rightarrow> Inl e
      | Inr output' \<Rightarrow> mask_pass rd rest output')"

text \<open>\<open>predict\<close>; \<open>bsz\<close> is \<open>x.shape[0]\<close>, the latent vectors are part of the decoder.\<close>

definition predict :: "reader \<Rightarrow> step_decoder \<Rightarrow> nat \<Rightarrow> py_error + buffer" where
  "predict rd dec bsz =
     (case init_output rd bsz of
        Inl e \<Rightarrow> Inl e
      | Inr output \<Rightarrow>
          (case generate rd dec [1..<ncols rd] output of
             Inl e \<Rightarrow> Inl e
           | Inr output' \<Rightarrow> mask_pass rd [1..<ncols rd] output'))"

text \<open>Concrete configurations and decoders used in the examples below.\<close>

definition reader3 :: reader where
  "reader3 = \<lparr>max_output_len = 3, start_index = 0, end_index = 2, pad_index = 3\<rparr>"

definition eos_decoder :: "reader \<Rightarrow> step_decoder" where
  "eos_decoder rd ctx = replicate (length ctx) (end_index rd)"

definition const_decoder :: "int \<Rightarrow> step_decoder" where
  "const_decoder t ctx = replicate (length ctx) t"

section \<open>Metrics (models/metrics.py)\<close>

subsection \<open>\<open>accuracy\<close>\<close>

text \<open>
  \<open>outputs\<close> is a matrix of scores, one row per position and one column per class,
  and \<open>labels\<close> a vector. \<open>torch.max(outputs, dim=-1)\<close> yields for each row the index
  of its first maximal entry, and refuses rows without entries.
\<close>

fun first_index :: "'a \<Rightarrow> 'a list \<Rightarrow> nat" where
  "first_index v [] = 0"
| "first_index v (x # xs) = (if x = v then 0 else Suc (first_index v xs))"

definition argmax :: "real list \<Rightarrow> nat" where
  "argmax row = first_index (Max (set row)) row"

definition argmax_rows :: "real list list \<Rightarrow> py_error + nat list" where
  "argmax_rows rows =
     (if \<exists>row\<in>set rows. row = [] then Inl IndexError else Inr (map argmax rows))"

text \<open>\<open>a == b\<close> for two vectors, with broadcasting of a vector of one element.\<close>

definition eq_vec :: "int list \<Rightarrow> int list \<Rightarrow> py_error + bool list" where
  "eq_vec a b =
     (if length a = length b then Inr (map2 (=) a b)
      else if length a = 1 then Inr (map (\<lambda>y. a ! 0 = y) b)
      else if length b = 1 then Inr (map (\<lambda>x. x = b ! 0) a)
      else Inl RuntimeError)"

text \<open>
  Division of a float tensor by an integer: a zero divisor raises nothing, the
  quotient is not-a-number or infinite.
\<close>

definition float_div :: "nat \<Rightarrow> nat \<Rightarrow> fval" where
  "float_div c n =
     (if n = 0 then (if c = 0 then Nan else PosInf) else Fin (real c / real n))"

text \<open>
  Lines 37-41: \<open>(predicted == labels).sum().float() / labels.shape[0]\<close>.
\<close>

definition accuracy :: "real list list \<Rightarrow> int list \<Rightarrow> py_error + fval" where
  "accuracy outputs labels =
     (case argmax_rows outputs of
        Inl e \<Rightarrow> Inl e
      | Inr predicted \<Rightarrow>
          (case eq_vec (map int predicted) labels of
             Inl e \<Rightarrow> Inl e
           | Inr hits \<Rightarrow> Inr (float_div (length (filter (\<lambda>h. h) hits)) (length labels))))"

subsection \<open>\<open>accuracy_ignore_pad\<close>\<close>

text \<open>
  The two tensors the caller passes, as the state the function runs in: the function
  returns this state as it is after the call, next to its result.
\<close>

record acc_store =
  output_t :: "real list list"
  target_t :: "int list"

text \<open>
  \<open>torch.nonzero(target == v).squeeze(1)\<close>: the positions holding \<open>v\<close>, ascending.
\<close>

definition nonzero_eq :: "int list \<Rightarrow> int \<Rightarrow> nat list" where
  "nonzero_eq target v = filter (\<lambda>i. target ! i = v) [0..<length target]"

text \<open>
  \<open>torch.arange(a, b, step)\<close>: refused for a zero step and for bounds in the wrong
  order for the sign of the step; otherwise \<open>a, a + step, ...\<close> short of \<open>b\<close>.
\<close>

definition arange :: "int \<Rightarrow> int \<Rightarrow> int \<Rightarrow> py_error + int list" where
  "arange a b step =
     (if step = 0 then Inl RuntimeError
      else if (0 < step \<and> b < a) \<or> (step < 0 \<and> a < b) then Inl RuntimeError
      else Inr (map (\<lambda>k. a + int k * step) [0..<nat (- ((a - b) div step))]))"

text \<open>
  \<open>output[lo : hi] = v\<close> on the first dimension, for bounds that are not negative:
  every entry of the rows \<open>lo\<close> to \<open>hi - 1\<close> that exist becomes \<open>v\<close>.
\<close>

definition slice_fill :: "nat \<Rightarrow> nat \<Rightarrow> real \<Rightarrow> real list list \<Rightarrow> real list list" where
  "slice_fill lo hi v rows =
     map (\<lambda>(j, row). if lo \<le> j \<and> j < hi then map (\<lambda>_. v) row else row) (enumerate 0 rows)"

text \<open>
  Lines 17-22. The end indices are positive (a step that is not positive is refused
  by \<open>arange\<close>), so the slice bounds are not negative.
\<close>

definition accuracy_ignore_pad ::
  "acc_store \<Rightarrow> int \<Rightarrow> int \<Rightarrow> int \<Rightarrow> acc_store \<times> (py_error + fval)" where
  "accuracy_ignore_pad s pad_idx eos_idx seq_len =
     (let start_indices = nonzero_eq (target_t s) eos_idx
      in case arange seq_len (int (length (target_t s)) + 1) seq_len of
           Inl e \<Rightarrow> (s, Inl e)
         | Inr end_indices \<Rightarrow>
             (let s' = fold (\<lambda>(start, stop) st.
                              st\<lparr>output_t := slice_fill (start + 1) (nat stop) (of_int pad_idx)
                                                (output_t st)\<rparr>)
                            (zip start_indices end_indices) s
              in (s', accuracy (output_t s') (target_t s'))))"

subsection \<open>Edit distance\<close>

text \<open>
  \<open>Lev.distance\<close> comes from an external library and is modelled by its meaning: the
  least number of insertions, deletions and substitutions of single characters that
  turn one string into the other.
\<close>

fun lev :: "'a list \<Rightarrow> 'a list \<Rightarrow> nat" where
  "lev [] ys = length ys"
| "lev (x # xs) [] = Suc (length xs)"
| "lev (x # xs) (y # ys) =
     min (min (Suc (lev xs (y # ys))) (Suc (lev (x # xs) ys)))
         ((if x = y then 0 else 1) + lev xs ys)"

subsection \<open>\<open>cer\<close> and \<open>wer\<close>\<close>

text \<open>A Python string is the list of its code points.\<close>

type_synonym pystr = "nat list"

text \<open>
  A tensor of any rank, as its shape and its elements; \<open>t.shape[k]\<close> is out of range
  for a tensor of rank \<open>k\<close> or less.
\<close>

record 'a tensor =
  tshape :: "nat list"
  tdata :: "'a list"

definition shape_at :: "'a tensor \<Rightarrow> nat \<Rightarrow> py_error + nat" where
  "shape_at t k = (if k < length (tshape t) then Inr (tshape t ! k) else Inl IndexError)"

record ctc_store =
  outputs_t :: "real tensor"
  targets_t :: "int tensor"

text \<open>
  \<open>greedy_decoder\<close> (text_recognizer.networks) is not among the sources: it is a
  parameter, given the two tensors and the target lengths, and returning the tensors
  as it leaves them with the decoded predictions and the decoded targets, each a
  list of sequences of symbols.
\<close>

type_synonym decoded = "pystr list list \<times> pystr list list"

type_synonym greedy_decoder = "ctc_store \<Rightarrow> nat list \<Rightarrow> ctc_store \<times> decoded"

text \<open>Python's \<open>a / b\<close> on integers.\<close>

definition true_div :: "nat \<Rightarrow> nat \<Rightarrow> py_error + real" where
  "true_div a b = (if b = 0 then Inl ZeroDivisionError else Inr (real a / real b))"

text \<open>Lines 65-71: \<open>"".join\<close>, \<open>replace(" ", "")\<close> and the distance of one pair.\<close>

definition strip_spaces :: "pystr \<Rightarrow> pystr" where
  "strip_spaces s = filter (\<lambda>c. c \<noteq> 32) s"

definition cer_pair :: "pystr list \<Rightarrow> pystr list \<Rightarrow> nat" where
  "cer_pair prediction target =
     lev (strip_spaces (concat prediction)) (strip_spaces (concat target))"

text \<open>Lines 55-72.\<close>

definition cer :: "greedy_decoder \<Rightarrow> ctc_store \<Rightarrow> ctc_store \<times> (py_error + real)" where
  "cer gd s =
     (case shape_at (outputs_t s) 1 of
        Inl e \<Rightarrow> (s, Inl e)
      | Inr n \<Rightarrow>
          (case shape_at (targets_t s) 1 of
             Inl e \<Rightarrow> (s, Inl e)
           | Inr l \<Rightarrow>
               (case gd s (replicate n l) of
                  (s', decoded_predictions, decoded_targets) \<Rightarrow>
                    (s', true_div
                           (fold (\<lambda>(prediction, target) lev_dist.
                                    lev_dist + cer_pair prediction target)
                                 (zip decoded_predictions decoded_targets) 0)
                           (length decoded_predictions)))))"

text \<open>
  \<open>str.split()\<close> without argument: the maximal runs of characters that are not
  whitespace. \<open>py_isspace\<close> lists the code points Python counts as whitespace.
\<close>

definition py_isspace :: "nat \<Rightarrow> bool" where
  "py_isspace c \<longleftrightarrow>
     (9 \<le> c \<and> c \<le> 13) \<or> (28 \<le> c \<and> c \<le> 32) \<or> c = 133 \<or> c = 160 \<or> c = 5760 \<or>
     (8192 \<le> c \<and> c \<le> 8202) \<or> c = 8232 \<or> c = 8233 \<or> c = 8239 \<or> c = 8287 \<or> c = 12288"

fun split_from :: "pystr \<Rightarrow> pystr \<Rightarrow> pystr list" where
  "split_from word [] = (if word = [] then [] else [word])"
| "split_from word (c # cs) =
     (if py_isspace c then (if word = [] then split_from [] cs else word # split_from [] cs)
      else split_from (word @ [c]) cs)"

definition py_split :: "pystr \<Rightarrow> pystr list" where
  "py_split s = split_from [] s"

text \<open>
  Lines 99-100: \<open>b = set(...)\<close> and \<open>dict(zip(b, range(len(b))))\<close>. The order in which
  a set is iterated is not fixed by the language: \<open>set_order\<close> is a parameter that
  lists the distinct elements of its argument in that order.
\<close>

type_synonym set_order = "pystr list \<Rightarrow> pystr list"

definition set_order_ok :: "set_order \<Rightarrow> bool" where
  "set_order_ok so \<longleftrightarrow> (\<forall>ws. distinct (so ws) \<and> set (so ws) = set ws)"

definition word2char :: "set_order \<Rightarrow> pystr list \<Rightarrow> (pystr \<rightharpoonup> nat)" where
  "word2char so ws = map_of (zip (so ws) [0..<length (so ws)])"

text \<open>\<open>chr(i)\<close> is defined for the code points below \<open>0x110000\<close>.\<close>

definition chr :: "nat \<Rightarrow> py_error + nat" where
  "chr i = (if i < 1114112 then Inr i else Inl ValueError)"

definition surrogate :: "(pystr \<rightharpoonup> nat) \<Rightarrow> pystr \<Rightarrow> py_error + nat" where
  "surrogate d w = (case d w of None \<Rightarrow> Inl KeyError | Some i \<Rightarrow> chr i)"

text \<open>Lines 102-103: \<open>[chr(word2char[w]) for w in ...]\<close>, joined to one string.\<close>

fun surrogates :: "(pystr \<rightharpoonup> nat) \<Rightarrow> pystr list \<Rightarrow> py_error + pystr" where
  "surrogates d [] = Inr []"
| "surrogates d (w # ws) =
     (case surrogate d w of
        Inl e \<Rightarrow> Inl e
      | Inr c \<Rightarrow> (case surrogates d ws of Inl e \<Rightarrow> Inl e | Inr cs \<Rightarrow> Inr (c # cs)))"

text \<open>Lines 96-105, the body of the loop of \<open>wer\<close> for one pair.\<close>

definition wer_pair :: "set_order \<Rightarrow> pystr list \<Rightarrow> pystr list \<Rightarrow> py_error + nat" where
  "wer_pair so prediction target =
     (let p = py_split (concat prediction);
          t = py_split (concat target);
          d = word2char so (p @ t)
      in case surrogates d p of
           Inl e \<Rightarrow> Inl e
         | Inr w1 \<Rightarrow> (case surrogates d t of Inl e \<Rightarrow> Inl e | Inr w2 \<Rightarrow> Inr (lev w1 w2)))"

fun wer_loop ::
  "set_order \<Rightarrow> (pystr list \<times> pystr list) list \<Rightarrow> nat \<Rightarrow> py_error + nat" where
  "wer_loop so [] lev_dist = Inr lev_dist"
| "wer_loop so ((prediction, target) # rest) lev_dist =
     (case wer_pair so prediction target of
        Inl e \<Rightarrow> Inl e
      | Inr d \<Rightarrow> wer_loop so rest (lev_dist + d))"

text \<open>Lines 86-107.\<close>

definition wer ::
  "greedy_decoder \<Rightarrow> set_order \<Rightarrow> ctc_store \<Rightarrow> ctc_store \<times> (py_error + real)" where
  "wer gd so s =
     (case shape_at (outputs_t s) 1 of
        Inl e \<Rightarrow> (s, Inl e)
      | Inr n \<Rightarrow>
          (case shape_at (targets_t s) 1 of
             Inl e \<Rightarrow> (s, Inl e)
           | Inr l \<Rightarrow>
               (case gd s (replicate n l) of
                  (s', decoded_predictions, decoded_targets) \<Rightarrow>
                    (case wer_loop so (zip decoded_predictions decoded_targets) 0 of
                       Inl e \<Rightarrow> (s', Inl e)
                     | Inr lev_dist \<Rightarrow>
                         (s', true_div lev_dist (length decoded_predictions))))))"

section \<open>Notions used to state the claims\<close>

text \<open>
  The number of positions at which the arg-max class of \<open>outputs\<close> is the label, and
  the one-hot encoding of a label among \<open>c\<close> classes.
\<close>

definition matches :: "real list list \<Rightarrow> int list \<Rightarrow> nat" where
  "matches outputs labels =
     length (filter (\<lambda>(row, l). int (argmax row) = l) (zip outputs labels))"

definition one_hot :: "nat \<Rightarrow> int \<Rightarrow> real list" where
  "one_hot c l = (replicate c 0)[nat l := 1]"

text \<open>
  The words of a decoded sequence, as \<open>wer\<close> takes them, and two word sequences that
  differ by exactly one whole word: one word replaced, removed or added.
\<close>

definition words :: "pystr list \<Rightarrow> pystr list" where
  "words symbols = py_split (concat symbols)"

definition one_word_apart :: "pystr list \<Rightarrow> pystr list \<Rightarrow> bool" where
  "one_word_apart ws1 ws2 \<longleftrightarrow>
     (\<exists>u a b v. a \<noteq> b \<and> ws1 = u @ a # v \<and> ws2 = u @ b # v) \<or>
     (\<exists>u a v. ws1 = u @ a # v \<and> ws2 = u @ v) \<or>
     (\<exists>u a v. ws1 = u @ v \<and> ws2 = u @ a # v)"

text \<open>The number that \<open>word2char\<close> gives a word.\<close>

definition code :: "set_order \<Rightarrow> pystr list \<Rightarrow> pystr \<Rightarrow> nat" where
  "code so ws w = the (word2char so ws w)"

text \<open>Concrete strings, decoders and batches used in the examples.\<close>

definition str :: "string \<Rightarrow> pystr" where
  "str s = map of_char s"

definition fixed_decoder :: "decoded \<Rightarrow> greedy_decoder" where
  "fixed_decoder d s lens = (s, d)"

definition empty_batch :: ctc_store where
  "empty_batch = \<lparr>outputs_t = \<lparr>tshape = [4, 0, 3], tdata = []\<rparr>,
                   targets_t = \<lparr>tshape = [0, 5], tdata = []\<rparr>\<rparr>"

definition small_batch :: ctc_store where
  "small_batch = \<lparr>outputs_t = \<lparr>tshape = [1, 2, 1], tdata = [0, 0]\<rparr>,
                   targets_t = \<lparr>tshape = [2, 1], tdata = [0, 0]\<rparr>\<rparr>"

definition fox_decoded :: decoded where
  "fox_decoded = ([[str ''t'', str ''h e'']], [[str ''the'']])"

definition fax_decoded :: decoded where
  "fax_decoded = ([[str ''t'', str ''h e''], [str ''f o'', str ''x'']],
                  [[str ''the''], [str ''fax'']])"

definition slow_decoded :: decoded where
  "slow_decoded = ([[str ''the '', str ''slow'', str '' fox'']], [[str ''the quick fox'']])"





definition one_eos_store :: acc_store where
  "one_eos_store = \<lparr>output_t = [[0], [0], [0], [0], [0], [0]], target_t = [5, 81, 7, 81, 8, 9]\<rparr>"

text \<open>A decoder that leaves the targets it is given as they are.\<close>

definition keeps_targets :: "greedy_decoder \<Rightarrow> bool" where
  "keeps_targets gd \<longleftrightarrow> (\<forall>s lens. targets_t (fst (gd s lens)) = targets_t s)"

section \<open>Properties of the generation loop\<close>

subsection \<open>The early-stop condition never yields a truth value\<close>

lemma tensor_bool_numel: "length elems \<noteq> 1 \<Longrightarrow> tensor_bool elems = Inl RuntimeError"
  by (cases elems; cases "tl elems") (auto simp: tensor_bool_def)

lemma length_concat_const:
  "\<forall>r\<in>set t. length r = n \<Longrightarrow> length (concat t) = length t * n"
  by (induction t) auto

lemma eq_vec_mat_numel:
  assumes "eq_vec_mat n a b = Inr t" "2 \<le> n" "\<forall>row\<in>set b. length row = n"
  shows "length (concat t) = length b * n"
proof -
  have "length t = length b \<and> (\<forall>r\<in>set t. length r = n)"
    using assms by (auto simp: eq_vec_mat_def split: if_splits)
  then show ?thesis using length_concat_const [of t n] by simp
qed

text \<open>
  In a buffer of two or more columns the comparison of the column with the row slice
  either does not broadcast, or has no element (no row in the slice) or at least two:
  its truth value is refused in every case.
\<close>

lemma early_stop_raises:
  assumes "2 \<le> ncols rd" "\<forall>row\<in>set output. length row = ncols rd"
  shows "early_stop rd output i = Inl RuntimeError"
proof (cases "eq_vec_mat (ncols rd) (column (i - 1) output)
                (or_scalar (end_index rd) (take (i - 1) output))")
  case (Inl e)
  then have "e = RuntimeError" by (auto simp: eq_vec_mat_def split: if_splits)
  with Inl show ?thesis by (simp add: early_stop_def)
next
  case (Inr t)
  have rows: "\<forall>row\<in>set (or_scalar (end_index rd) (take (i - 1) output)). length row = ncols rd"
    using assms(2) by (auto simp: or_scalar_def dest: in_set_takeD)
  have "length (concat t) = length (or_scalar (end_index rd) (take (i - 1) output)) * ncols rd"
    by (rule eq_vec_mat_numel [OF Inr assms(1) rows])
  with assms(1) have "length (concat t) \<noteq> 1" by auto
  then have "tensor_bool (concat t) = Inl RuntimeError" by (rule tensor_bool_numel)
  with Inr show ?thesis by (simp add: early_stop_def)
qed

lemma write_tokens_rows:
  assumes "write_tokens i toks output = Inr output'" "\<forall>row\<in>set output. length row = n"
  shows "\<forall>row\<in>set output'. length row = n"
  using assms by (auto simp: write_tokens_def split: if_splits dest!: set_zip_leftD)

lemma write_tokens_error: "write_tokens i toks output = Inl e \<Longrightarrow> e = RuntimeError"
  by (auto simp: write_tokens_def split: if_splits)

lemma generate_raises:
  assumes "2 \<le> ncols rd" "\<forall>row\<in>set output. length row = ncols rd" "steps \<noteq> []"
  shows "generate rd dec steps output = Inl RuntimeError"
proof (cases steps)
  case Nil
  with assms(3) show ?thesis by simp
next
  case (Cons i rest)
  show ?thesis
  proof (cases "write_tokens i (dec (map (take i) output)) output")
    case (Inl e)
    with Cons write_tokens_error [OF Inl] show ?thesis by simp
  next
    case (Inr output')
    have "early_stop rd output' i = Inl RuntimeError"
      using early_stop_raises [OF assms(1) write_tokens_rows [OF Inr assms(2)]] .
    with Cons Inr show ?thesis by simp
  qed
qed

text \<open>
  So \<open>predict\<close> returns no buffer as soon as there is a position to generate, whatever
  the decoder and the batch size; with a single column it returns the start tokens.
\<close>

lemma predict_raises:
  assumes "2 \<le> max_output_len rd"
  shows "predict rd dec bsz = Inl RuntimeError"
proof -
  from assms have n: "2 \<le> ncols rd" by (simp add: ncols_def)
  let ?out = "map (\<lambda>row. row[0 := start_index rd]) (replicate bsz (replicate (ncols rd) 1))"
  have init: "init_output rd bsz = Inr ?out" using assms by (simp add: init_output_def)
  have rows: "\<forall>row\<in>set ?out. length row = ncols rd" by auto
  from n have "[1..<ncols rd] \<noteq> []" by simp
  from generate_raises [OF n rows this] init show ?thesis by (simp add: predict_def)
qed

lemma predict_one_column:
  assumes "max_output_len rd = 1"
  shows "predict rd dec bsz = Inr (replicate bsz [start_index rd])"
  using assms by (simp add: predict_def init_output_def ncols_def)

subsection \<open>The claims about the generation loop\<close>

text \<open>
  C1. The claim: in every sequence that \<open>predict\<close> returns, every position after an
  end-of-sequence or pad token holds the pad token. On the code: for one batch
  element, three positions, start 0, end 2, pad 3 and a decoder that answers 7,
  \<open>predict\<close> raises at the early-stop condition of the first step and returns no
  sequence; and the masking pass, run on its own on the buffer \<open>[0, 2, 7]\<close>, leaves
  the 7 after the end token, because its condition selects a row only when the
  previous token is the pad token and the bits of the end index are among those of
  the pad index.
\<close>

theorem predict_no_sequence:
  "predict reader3 (const_decoder 7) 1 = Inl RuntimeError \<and>
   mask_pass reader3 [1..<3] [[0, 2, 7]] = Inr [[0, 2, 7]]"
  by (simp add: predict_def init_output_def reader3_def ncols_def const_decoder_def
      write_tokens_def early_stop_def column_def or_scalar_def eq_vec_mat_def
      tensor_bool_def mask_step_def upt_conv_Cons)

text \<open>
  C2. The claim: the early-stop check stops the loop at step \<open>i\<close> exactly when every
  batch element holds the end-of-sequence or the pad token at position \<open>i - 1\<close>, and
  lets the loop go on otherwise. On the code, for one batch element and the buffer
  \<open>[0, 2, 1]\<close> that step 1 leaves with a decoder answering the end token: at step 1,
  where position 0 holds the start token, the check raises instead of letting the
  loop go on; and at step 2, where position 1 holds the end token, the check would
  raise instead of stopping the loop.
\<close>

theorem early_stop_no_answer:
  "early_stop reader3 [[0, 2, 1]] 1 = Inl RuntimeError \<and>
   early_stop reader3 [[0, 2, 1]] 2 = Inl RuntimeError"
  by (simp add: early_stop_def reader3_def ncols_def column_def or_scalar_def
      eq_vec_mat_def tensor_bool_def)

text \<open>
  C3 as stated: after the initialisation every position but the first holds the pad
  index. With pad index 3 the positions hold 1.
\<close>

theorem init_output_not_pad:
  "init_output reader3 1 = Inr [[0, 1, 1]] \<and> pad_index reader3 = 3"
  by (simp add: init_output_def reader3_def ncols_def eval_nat_numeral)

text \<open>
  C3, amended: for a positive \<open>max_output_len\<close> the buffer has one row per batch
  element, the start index in column 0 and the number 1 in every other position.
\<close>

theorem init_output_ones:
  assumes "1 \<le> max_output_len rd"
  shows "init_output rd bsz =
           Inr (replicate bsz (start_index rd # replicate (ncols rd - 1) 1))"
proof -
  from assms obtain n where n: "ncols rd = Suc n"
    by (cases "ncols rd") (auto simp: ncols_def)
  with assms show ?thesis by (simp add: init_output_def)
qed

theorem init_output_ones_witness:
  "1 \<le> max_output_len reader3 \<and> init_output reader3 2 = Inr [[0, 1, 1], [0, 1, 1]]"
  using init_output_ones [of reader3 2] by (simp add: reader3_def ncols_def eval_nat_numeral)

text \<open>
  C4. The claim: with a decoder that answers the end-of-sequence token and more than
  two positions, \<open>predict\<close> returns start, end, pad, ... for every batch element. On
  the code: for one batch element and three positions (start 0, end 2, pad 3) the
  claim gives \<open>[0, 2, 3]\<close>, and \<open>predict\<close> raises at the early-stop condition of the
  first step.
\<close>

theorem predict_eos_decoder_raises:
  "predict reader3 (eos_decoder reader3) 1 = Inl RuntimeError"
  by (simp add: predict_def init_output_def reader3_def ncols_def eos_decoder_def
      write_tokens_def early_stop_def column_def or_scalar_def eq_vec_mat_def
      tensor_bool_def upt_conv_Cons)

section \<open>Properties of the metrics\<close>

subsection \<open>\<open>accuracy\<close>\<close>

lemma argmax_rows_ok:
  "\<forall>row\<in>set rows. row \<noteq> [] \<Longrightarrow> argmax_rows rows = Inr (map argmax rows)"
  by (auto simp: argmax_rows_def)

lemma hits_matches:
  "length (filter (\<lambda>h. h) (map2 (=) (map int (map argmax outputs)) labels)) = matches outputs labels"
proof -
  have "map2 (=) (map int (map argmax outputs)) labels
        = map (\<lambda>(row, l). int (argmax row) = l) (zip outputs labels)"
    by (simp add: zip_map1 case_prod_unfold comp_def)
  then show ?thesis
    by (simp add: matches_def length_filter_map comp_def case_prod_unfold)
qed

lemma matches_le: "matches outputs labels \<le> length labels"
proof -
  have "matches outputs labels \<le> length (zip outputs labels)"
    unfolding matches_def by (rule length_filter_le)
  then show ?thesis by simp
qed

lemma accuracy_value:
  assumes "length outputs = length labels" "\<forall>row\<in>set outputs. row \<noteq> []"
  shows "accuracy outputs labels = Inr (float_div (matches outputs labels) (length labels))"
  using assms hits_matches [of outputs labels]
  by (simp add: accuracy_def argmax_rows_ok eq_vec_def)

lemma first_index_one_hot:
  "k < c \<Longrightarrow> first_index (1::real) ((replicate c 0)[k := 1]) = k"
proof (induction c arbitrary: k)
  case 0 then show ?case by simp
next
  case (Suc c)
  then show ?case by (cases k) auto
qed

lemma Max_one_hot:
  assumes "k < c"
  shows "Max (set ((replicate c (0::real))[k := 1])) = 1"
proof (rule Max_eqI)
  show "finite (set ((replicate c (0::real))[k := 1]))" by simp
  show "y \<le> 1" if "y \<in> set ((replicate c (0::real))[k := 1])" for y
    using that set_update_subset_insert [of "replicate c (0::real)" k 1] by auto
  show "1 \<in> set ((replicate c (0::real))[k := 1])"
    using assms by (simp add: set_update_memI)
qed

lemma argmax_one_hot:
  assumes "0 \<le> l" "l < int c"
  shows "int (argmax (one_hot c l)) = l"
proof -
  from assms have k: "nat l < c" by simp
  show ?thesis using assms
    by (simp add: argmax_def one_hot_def Max_one_hot [OF k] first_index_one_hot [OF k])
qed

lemma matches_all:
  assumes "length outputs = length labels"
    "\<forall>(row, l)\<in>set (zip outputs labels). int (argmax row) = l"
  shows "matches outputs labels = length labels"
proof -
  have "filter (\<lambda>(row, l). int (argmax row) = l) (zip outputs labels) = zip outputs labels"
    using assms(2) by (intro filter_True) auto
  with assms(1) show ?thesis by (simp add: matches_def)
qed

lemma matches_one_hot:
  assumes "\<forall>l\<in>set labels. 0 \<le> l \<and> l < int c"
  shows "matches (map (one_hot c) labels) labels = length labels"
proof (rule matches_all)
  show "length (map (one_hot c) labels) = length labels" by simp
  show "\<forall>(row, l)\<in>set (zip (map (one_hot c) labels) labels). int (argmax row) = l"
    using assms by (auto simp: zip_map1 zip_same argmax_one_hot)
qed

text \<open>
  C6 as stated: for all outputs and labels of compatible shapes the accuracy lies
  between 0 and 1. For no position at all (an empty batch) the quotient of the float
  zero by the integer zero is not-a-number; and for two rows of scores against a
  single label, which broadcasts, both rows match and the quotient by
  \<open>labels.shape[0]\<close> is 2.
\<close>

theorem accuracy_not_in_unit_interval:
  "accuracy [] [] = Inr Nan \<and> accuracy [[0, 1], [0, 1]] [1] = Inr (Fin 2)"
  by (simp add: accuracy_def argmax_rows_def argmax_def eq_vec_def float_div_def)

text \<open>
  C6, amended: for a vector of at least one label and one non-empty row of scores per
  label, \<open>accuracy\<close> is the number of positions whose arg-max class is the label,
  divided by the number of labels; it lies between 0 and 1, it is 1 when every
  position matches, in particular for the one-hot encodings of the labels, and 0 when
  no position matches.
\<close>

theorem accuracy_fraction:
  assumes "labels \<noteq> []" "length outputs = length labels" "\<forall>row\<in>set outputs. row \<noteq> []"
  shows "accuracy outputs labels
           = Inr (Fin (real (matches outputs labels) / real (length labels)))
       \<and> 0 \<le> real (matches outputs labels) / real (length labels)
       \<and> real (matches outputs labels) / real (length labels) \<le> 1
       \<and> (matches outputs labels = length labels \<longrightarrow> accuracy outputs labels = Inr (Fin 1))
       \<and> (matches outputs labels = 0 \<longrightarrow> accuracy outputs labels = Inr (Fin 0))
       \<and> (\<forall>c. outputs = map (one_hot c) labels \<and> (\<forall>l\<in>set labels. 0 \<le> l \<and> l < int c)
              \<longrightarrow> accuracy outputs labels = Inr (Fin 1))"
proof -
  from assms(1) have pos: "0 < length labels" by simp
  have val: "accuracy outputs labels
               = Inr (Fin (real (matches outputs labels) / real (length labels)))"
    using accuracy_value [OF assms(2,3)] pos by (simp add: float_div_def)
  have le: "real (matches outputs labels) / real (length labels) \<le> 1"
    using matches_le [of outputs labels] pos by simp
  have hot: "accuracy outputs labels = Inr (Fin 1)"
    if "outputs = map (one_hot c) labels" "\<forall>l\<in>set labels. 0 \<le> l \<and> l < int c" for c
    using val matches_one_hot [OF that(2)] that(1) pos by simp
  show ?thesis using val le pos hot by auto
qed

theorem accuracy_fraction_witness:
  "accuracy [[0, 1], [1, 0]] [1, 0] = Inr (Fin 1) \<and> accuracy [[0, 1], [1, 0]] [0, 1] = Inr (Fin 0)
   \<and> accuracy (map (one_hot 2) [1, 0]) [1, 0] = Inr (Fin 1)"
proof -
  have h1: "[1, 0] \<noteq> ([]::int list)" and h1': "[0, 1] \<noteq> ([]::int list)" by simp_all
  have h2: "length [[0, 1], [1, 0::real]] = length [1, 0::int]"
    and h2': "length [[0, 1], [1, 0::real]] = length [0, 1::int]"
    and h2'': "length (map (one_hot 2) [1, 0]) = length [1, 0::int]" by simp_all
  have h3: "\<forall>row\<in>set [[0, 1], [1, 0::real]]. row \<noteq> []" by simp
  have h3'': "\<forall>row\<in>set (map (one_hot 2) [1, 0]). row \<noteq> []" by (simp add: one_hot_def)
  have m1: "matches [[0, 1], [1, 0]] [1, 0] = length [1, 0::int]"
    and m0: "matches [[0, 1], [1, 0]] [0, 1] = 0"
    by (simp_all add: matches_def argmax_def)
  have r: "\<forall>l\<in>set [1, 0::int]. 0 \<le> l \<and> l < int 2" by simp
  from accuracy_fraction [OF h1 h2 h3] m1
  have a: "accuracy [[0, 1], [1, 0]] [1, 0] = Inr (Fin 1)" by blast
  from accuracy_fraction [OF h1' h2' h3] m0
  have b: "accuracy [[0, 1], [1, 0]] [0, 1] = Inr (Fin 0)" by blast
  from accuracy_fraction [OF h1 h2'' h3''] r
  have c: "accuracy (map (one_hot 2) [1, 0]) [1, 0] = Inr (Fin 1)" by blast
  from a b c show ?thesis by blast
qed

subsection \<open>Edit distance\<close>

lemma lev_Nil2 [simp]: "lev xs [] = length xs"
  by (cases xs) auto

lemma lev_refl [simp]: "lev xs xs = 0"
  by (induction xs) auto

lemma lev_eq_0_iff: "lev xs ys = 0 \<longleftrightarrow> xs = ys"
proof
  show "lev xs ys = 0 \<Longrightarrow> xs = ys"
  proof (induction xs ys rule: lev.induct)
    case (3 x xs y ys)
    from "3.prems" have "(if x = y then 0 else 1) + lev xs ys = 0"
      by (auto simp: min_def split: if_splits)
    then have "x = y" "lev xs ys = 0" by (auto split: if_splits)
    with "3.IH"(3) show ?case by simp
  qed auto
qed simp

lemma lev_Cons_same_le: "lev (x # xs) (x # ys) \<le> lev xs ys"
  by simp

lemma lev_prefix_le: "lev (u @ xs) (u @ ys) \<le> lev xs ys"
proof (induction u)
  case Nil show ?case by simp
next
  case (Cons c u)
  have "lev (c # u @ xs) (c # u @ ys) \<le> lev (u @ xs) (u @ ys)" by (rule lev_Cons_same_le)
  with Cons show ?case by simp
qed

lemma lev_subst: 
  assumes "a \<noteq> b"
  shows "lev (u @ a # v) (u @ b # v) = 1"
proof -
  have "lev (a # v) (b # v) \<le> 1" using assms by simp
  with lev_prefix_le [of u "a # v" "b # v"] have le: "lev (u @ a # v) (u @ b # v) \<le> 1" by simp
  from assms have "u @ a # v \<noteq> u @ b # v" by simp
  then have "lev (u @ a # v) (u @ b # v) \<noteq> 0" by (simp add: lev_eq_0_iff)
  with le show ?thesis by simp
qed

lemma lev_insert_le: "lev xs (y # xs) \<le> 1"
  by (cases xs) auto

lemma lev_delete_le: "lev (x # ys) ys \<le> 1"
  by (cases ys) auto

lemma lev_one:
  assumes "lev xs ys \<le> 1" "u @ xs \<noteq> u @ ys"
  shows "lev (u @ xs) (u @ ys) = 1"
proof -
  from lev_prefix_le [of u xs ys] assms(1) have "lev (u @ xs) (u @ ys) \<le> 1" by simp
  moreover from assms(2) have "lev (u @ xs) (u @ ys) \<noteq> 0" by (simp add: lev_eq_0_iff)
  ultimately show ?thesis by simp
qed

lemma lev_one_word_apart:
  assumes "one_word_apart ws1 ws2"
  shows "lev ws1 ws2 = 1"
proof -
  consider (sub) u a b v where "a \<noteq> b" "ws1 = u @ a # v" "ws2 = u @ b # v"
    | (del) u a v where "ws1 = u @ a # v" "ws2 = u @ v"
    | (ins) u a v where "ws1 = u @ v" "ws2 = u @ a # v"
    using assms unfolding one_word_apart_def by blast
  then show ?thesis
  proof cases
    case sub
    have "lev (a # v) (b # v) \<le> 1" by simp
    with sub show ?thesis by (simp add: lev_one)
  next
    case del
    with lev_delete_le [of a v] show ?thesis by (simp add: lev_one)
  next
    case ins
    with lev_insert_le [of v a] show ?thesis by (simp add: lev_one)
  qed
qed

subsection \<open>\<open>cer\<close>\<close>

lemma fold_add_sum:
  "fold (\<lambda>(p, t) acc. acc + f p t) xs (a::nat) = a + sum_list (map (\<lambda>(p, t). f p t) xs)"
  by (induction xs arbitrary: a) (auto)

lemma cer_unfold:
  assumes "shape_at (outputs_t s) 1 = Inr n" "shape_at (targets_t s) 1 = Inr l"
    "gd s (replicate n l) = (s', dp, dt)"
  shows "cer gd s = (s', true_div (sum_list (map (\<lambda>(p, t). cer_pair p t) (zip dp dt))) (length dp))"
  using assms by (simp add: cer_def fold_add_sum)

lemma sum_list_eq_0_pairs:
  "sum_list (map (\<lambda>(p, t). f p t) xs) = (0::nat) \<longleftrightarrow> (\<forall>(p, t)\<in>set xs. f p t = 0)"
  by (induction xs) auto

text \<open>
  C7 as stated: \<open>cer\<close> is the sum of the edit distances of the decoded pairs divided
  by the number of decoded predictions, and it is 0.0 exactly when the two strings of
  every pair are the same. On an empty batch the decoder returns no pair, so the two
  strings of every pair are the same, and \<open>cer\<close> is not 0.0: it raises
  \<open>ZeroDivisionError\<close>.
\<close>

theorem cer_empty_batch_not_zero:
  "snd (cer (fixed_decoder ([], [])) empty_batch) = Inl ZeroDivisionError \<and>
   zip (fst (snd (fixed_decoder ([], []) empty_batch (replicate 0 5))))
       (snd (snd (fixed_decoder ([], []) empty_batch (replicate 0 5)))) = []"
  by (simp add: cer_def true_div_def fixed_decoder_def empty_batch_def shape_at_def)

text \<open>
  C7, amended. For outputs and targets of two dimensions or more, with \<open>dp\<close> and
  \<open>dt\<close> the decoded predictions and targets: \<open>cer\<close> is the sum, over the pairs of
  \<open>dp\<close> and \<open>dt\<close>, of the edit distance between the two concatenated strings without
  their space characters, divided (as Python divides) by the number of decoded
  predictions; when there is at least one decoded prediction, it is 0 exactly when
  the two strings of every pair are the same; and a pair whose strings differ by the
  substitution of one character contributes 1.
\<close>

theorem cer_edit_distance:
  assumes "shape_at (outputs_t s) 1 = Inr n" "shape_at (targets_t s) 1 = Inr l"
    "gd s (replicate n l) = (s', dp, dt)"
  shows "snd (cer gd s)
           = true_div (sum_list (map (\<lambda>(p, t). lev (strip_spaces (concat p))
                                                  (strip_spaces (concat t))) (zip dp dt)))
                      (length dp)
       \<and> (dp \<noteq> [] \<longrightarrow>
            (snd (cer gd s) = Inr 0 \<longleftrightarrow>
               (\<forall>(p, t)\<in>set (zip dp dt). strip_spaces (concat p) = strip_spaces (concat t))))
       \<and> (\<forall>p t u a b v. strip_spaces (concat p) = u @ a # v \<and>
                          strip_spaces (concat t) = u @ b # v \<and> a \<noteq> b
                        \<longrightarrow> cer_pair p t = 1)"
proof -
  let ?d = "\<lambda>(p, t). lev (strip_spaces (concat p)) (strip_spaces (concat t))"
  have pair: "(\<lambda>(p, t). cer_pair p t) = ?d" by (simp add: cer_pair_def fun_eq_iff)
  have val: "snd (cer gd s) = true_div (sum_list (map ?d (zip dp dt))) (length dp)"
    using cer_unfold [of s n l gd s' dp dt] assms pair by simp
  have zero: "snd (cer gd s) = Inr 0 \<longleftrightarrow>
      (\<forall>(p, t)\<in>set (zip dp dt). strip_spaces (concat p) = strip_spaces (concat t))"
    if "dp \<noteq> []"
  proof -
    from that have "snd (cer gd s) = Inr 0 \<longleftrightarrow> sum_list (map ?d (zip dp dt)) = 0"
      by (simp add: val true_div_def)
    also have "\<dots> \<longleftrightarrow> (\<forall>(p, t)\<in>set (zip dp dt).
        lev (strip_spaces (concat p)) (strip_spaces (concat t)) = 0)"
      by (rule sum_list_eq_0_pairs)
    finally show ?thesis by (simp add: lev_eq_0_iff)
  qed
  have sub: "cer_pair p t = 1"
    if "strip_spaces (concat p) = u @ a # v" "strip_spaces (concat t) = u @ b # v" "a \<noteq> b"
    for p t :: "pystr list" and u a b v
    using that by (simp add: cer_pair_def lev_subst)
  from val zero sub show ?thesis by blast
qed


theorem cer_edit_distance_witness:
  "snd (cer (fixed_decoder fax_decoded) small_batch) = Inr (1 / 2) \<and>
   snd (cer (fixed_decoder fox_decoded) small_batch) = Inr 0 \<and>
   cer_pair [str ''f o'', str ''x''] [str ''fax''] = 1"
proof -
  have o: "shape_at (outputs_t small_batch) 1 = Inr 2"
    and t: "shape_at (targets_t small_batch) 1 = Inr 1"
    by (simp_all add: small_batch_def shape_at_def)
  have g1: "fixed_decoder fax_decoded small_batch (replicate 2 1)
              = (small_batch, fst fax_decoded, snd fax_decoded)"
    and g0: "fixed_decoder fox_decoded small_batch (replicate 2 1)
              = (small_batch, fst fox_decoded, snd fox_decoded)"
    by (simp_all add: fixed_decoder_def)
  have ne: "fst fox_decoded \<noteq> []" by (simp add: fox_decoded_def)
  have same: "\<forall>(p, t)\<in>set (zip (fst fox_decoded) (snd fox_decoded)).
      strip_spaces (concat p) = strip_spaces (concat t)"
    by (simp add: fox_decoded_def str_def strip_spaces_def)
  have sub: "strip_spaces (concat [str ''f o'', str ''x'']) = str ''f'' @ 111 # str ''x''"
      "strip_spaces (concat [str ''fax'']) = str ''f'' @ 97 # str ''x''" "(111::nat) \<noteq> 97"
    by (simp_all add: str_def strip_spaces_def)
  have a: "snd (cer (fixed_decoder fax_decoded) small_batch) = Inr (1 / 2)"
    using cer_edit_distance [where gd = "fixed_decoder fax_decoded" and s = small_batch, OF o t g1]
    by (simp add: fax_decoded_def str_def strip_spaces_def true_div_def)
  have b: "snd (cer (fixed_decoder fox_decoded) small_batch) = Inr 0"
    using cer_edit_distance [where gd = "fixed_decoder fox_decoded" and s = small_batch, OF o t g0] ne same by blast
  have c: "cer_pair [str ''f o'', str ''x''] [str ''fax''] = 1"
    using cer_edit_distance [where gd = "fixed_decoder fox_decoded" and s = small_batch, OF o t g0] sub by blast
  from a b c show ?thesis by blast
qed

text \<open>
  C9 as stated: \<open>cer\<close> and \<open>wer\<close> reject a batch without decoded sequences with an
  invalid-input error and do not divide by zero. On an empty batch, with a decoder
  that returns no sequence, both raise the error of a division by zero.
\<close>

theorem cer_wer_empty_batch:
  "snd (cer (fixed_decoder ([], [])) empty_batch) = Inl ZeroDivisionError \<and>
   snd (wer (fixed_decoder ([], [])) remdups empty_batch) = Inl ZeroDivisionError"
  by (simp add: cer_def wer_def true_div_def fixed_decoder_def empty_batch_def shape_at_def)

text \<open>
  C9, amended: when the decoder returns no decoded prediction, \<open>cer\<close> and \<open>wer\<close>
  divide by zero, and both raise \<open>ZeroDivisionError\<close>.
\<close>

theorem cer_wer_zero_division:
  assumes "shape_at (outputs_t s) 1 = Inr n" "shape_at (targets_t s) 1 = Inr l"
    "fst (snd (gd s (replicate n l))) = []"
  shows "snd (cer gd s) = Inl ZeroDivisionError \<and> snd (wer gd so s) = Inl ZeroDivisionError"
proof -
  obtain s' dt where "gd s (replicate n l) = (s', [], dt)"
    using assms(3) by (cases "gd s (replicate n l)") auto
  with assms(1,2) show ?thesis by (simp add: cer_def wer_def true_div_def)
qed

theorem cer_wer_zero_division_witness:
  "shape_at (outputs_t empty_batch) 1 = Inr 0 \<and>
   snd (cer (fixed_decoder ([], [])) empty_batch) = Inl ZeroDivisionError \<and>
   snd (wer (fixed_decoder ([], [])) remdups empty_batch) = Inl ZeroDivisionError"
proof -
  have o: "shape_at (outputs_t empty_batch) 1 = Inr 0"
    and t: "shape_at (targets_t empty_batch) 1 = Inr 5"
    by (simp_all add: empty_batch_def shape_at_def)
  have g: "fst (snd (fixed_decoder ([], []) empty_batch (replicate 0 5))) = []"
    by (simp add: fixed_decoder_def)
  from cer_wer_zero_division [where gd = "fixed_decoder ([], [])" and s = empty_batch and so = remdups, OF o t g] o show ?thesis by simp
qed

subsection \<open>\<open>wer\<close>\<close>

lemma lev_map_inj:
  assumes "inj_on f (set xs \<union> set ys)"
  shows "lev (map f xs) (map f ys) = lev xs ys"
  using assms
proof (induction xs ys rule: lev.induct)
  case (3 x xs y ys)
  have i1: "inj_on f (set xs \<union> set (y # ys))" and i2: "inj_on f (set (x # xs) \<union> set ys)"
    and i3: "inj_on f (set xs \<union> set ys)"
    using "3.prems" by (auto intro: inj_on_subset)
  have "f x = f y \<longleftrightarrow> x = y" using "3.prems" by (auto simp: inj_on_def)
  with "3.IH"(1) [OF i1] "3.IH"(2) [OF i2] "3.IH"(3) [OF i3] show ?case by simp
qed auto

lemma word2char_nth:
  assumes "distinct (so ws)" "i < length (so ws)"
  shows "word2char so ws (so ws ! i) = Some i"
  using map_of_zip_nth [of "so ws" "[0..<length (so ws)]" i] assms
  by (simp add: word2char_def)

lemma word2char_Some:
  assumes "set_order_ok so" "w \<in> set ws"
  shows "\<exists>i<card (set ws). word2char so ws w = Some i \<and> so ws ! i = w"
proof -
  from assms(1) have d: "distinct (so ws)" and s: "set (so ws) = set ws"
    by (auto simp: set_order_ok_def)
  from assms(2) s have "w \<in> set (so ws)" by simp
  then obtain i where i: "i < length (so ws)" "so ws ! i = w"
    by (auto simp: in_set_conv_nth)
  from d s have "length (so ws) = card (set ws)" by (metis distinct_card)
  with i word2char_nth [of so ws i] d show ?thesis by auto
qed

lemma code_inj:
  assumes "set_order_ok so"
  shows "inj_on (code so ws) (set ws)"
proof (rule inj_onI)
  fix w w' assume "w \<in> set ws" "w' \<in> set ws" "code so ws w = code so ws w'"
  with word2char_Some [OF assms, of w ws] word2char_Some [OF assms, of w' ws]
  show "w = w'" by (auto simp: code_def)
qed

lemma surrogates_map:
  assumes "set_order_ok so" "card (set ws) \<le> 1114112" "set xs \<subseteq> set ws"
  shows "surrogates (word2char so ws) xs = Inr (map (code so ws) xs)"
  using assms(3)
proof (induction xs)
  case Nil show ?case by simp
next
  case (Cons x xs)
  from Cons.prems word2char_Some [OF assms(1), of x ws]
  obtain i where "i < card (set ws)" "word2char so ws x = Some i" by auto
  with assms(2) have "surrogate (word2char so ws) x = Inr (code so ws x)"
    by (simp add: surrogate_def chr_def code_def)
  with Cons show ?case by simp
qed

lemma wer_pair_lev:
  assumes "set_order_ok so" "card (set (words p @ words t)) \<le> 1114112"
  shows "wer_pair so p t = Inr (lev (words p) (words t))"
proof -
  let ?ws = "words p @ words t"
  have 1: "surrogates (word2char so ?ws) (words p) = Inr (map (code so ?ws) (words p))"
    by (rule surrogates_map [OF assms]) simp
  have 2: "surrogates (word2char so ?ws) (words t) = Inr (map (code so ?ws) (words t))"
    by (rule surrogates_map [OF assms]) simp
  have "inj_on (code so ?ws) (set (words p) \<union> set (words t))"
    using code_inj [OF assms(1), of ?ws] by simp
  then have "lev (map (code so ?ws) (words p)) (map (code so ?ws) (words t))
             = lev (words p) (words t)" by (rule lev_map_inj)
  with 1 2 show ?thesis by (simp add: wer_pair_def words_def Let_def)
qed

lemma wer_loop_sum:
  assumes "set_order_ok so"
    "\<forall>(p, t)\<in>set pairs. card (set (words p @ words t)) \<le> 1114112"
  shows "wer_loop so pairs acc
           = Inr (acc + sum_list (map (\<lambda>(p, t). lev (words p) (words t)) pairs))"
  using assms(2)
proof (induction pairs arbitrary: acc)
  case Nil show ?case by simp
next
  case (Cons pt pairs)
  obtain p t where pt: "pt = (p, t)" by (cases pt)
  with Cons.prems have "wer_pair so p t = Inr (lev (words p) (words t))"
    by (intro wer_pair_lev [OF assms(1)]) simp
  with Cons pt show ?case by simp
qed

lemma set_order_ok_remdups: "set_order_ok remdups"
  by (simp add: set_order_ok_def)

text \<open>
  C8. For an iteration order \<open>so\<close> of sets, and pairs of at most \<open>0x110000\<close> distinct
  words (the range of \<open>chr\<close>): what a pair contributes to \<open>wer\<close> is the edit distance
  between its two sequences of words, which depends on nothing but the pair, neither
  on the numbering of the words nor on the other pairs; \<open>wer\<close> is the sum of these
  contributions divided by the number of decoded predictions; and a pair whose word
  sequences differ by exactly one whole word contributes 1, whatever the lengths of
  the words.
\<close>

theorem wer_word_distance:
  assumes "set_order_ok so"
    "shape_at (outputs_t s) 1 = Inr n" "shape_at (targets_t s) 1 = Inr l"
    "gd s (replicate n l) = (s', dp, dt)"
    "\<forall>(p, t)\<in>set (zip dp dt). card (set (words p @ words t)) \<le> 1114112"
  shows "snd (wer gd so s)
           = true_div (sum_list (map (\<lambda>(p, t). lev (words p) (words t)) (zip dp dt)))
                      (length dp)
       \<and> (\<forall>(p, t)\<in>set (zip dp dt).
             wer_pair so p t = Inr (lev (words p) (words t)) \<and>
             (one_word_apart (words p) (words t) \<longrightarrow> wer_pair so p t = Inr 1))"
proof -
  have "wer_loop so (zip dp dt) 0
          = Inr (sum_list (map (\<lambda>(p, t). lev (words p) (words t)) (zip dp dt)))"
    using wer_loop_sum [OF assms(1,5), of 0] by simp
  with assms(2-4) have total: "snd (wer gd so s)
      = true_div (sum_list (map (\<lambda>(p, t). lev (words p) (words t)) (zip dp dt))) (length dp)"
    by (simp add: wer_def)
  have each: "wer_pair so p t = Inr (lev (words p) (words t)) \<and>
      (one_word_apart (words p) (words t) \<longrightarrow> wer_pair so p t = Inr 1)"
    if "(p, t) \<in> set (zip dp dt)" for p t
  proof -
    from that assms(5) have "card (set (words p @ words t)) \<le> 1114112" by auto
    from wer_pair_lev [OF assms(1) this] show ?thesis
      by (auto simp: lev_one_word_apart)
  qed
  from total each show ?thesis by auto
qed

theorem wer_word_distance_witness:
  "set_order_ok remdups \<and>
   snd (wer (fixed_decoder slow_decoded) remdups small_batch) = Inr 1 \<and>
   wer_pair remdups [str ''the '', str ''slow'', str '' fox''] [str ''the quick fox''] = Inr 1"
proof -
  let ?p = "[str ''the '', str ''slow'', str '' fox'']" and ?t = "[str ''the quick fox'']"
  have o: "shape_at (outputs_t small_batch) 1 = Inr 2"
    and t: "shape_at (targets_t small_batch) 1 = Inr 1"
    by (simp_all add: small_batch_def shape_at_def)
  have g: "fixed_decoder slow_decoded small_batch (replicate 2 1) = (small_batch, [?p], [?t])"
    by (simp add: fixed_decoder_def slow_decoded_def)
  have wp: "words ?p = [str ''the'', str ''slow'', str ''fox'']"
    and wt: "words ?t = [str ''the'', str ''quick'', str ''fox'']"
    by (simp_all add: words_def py_split_def py_isspace_def str_def)
  have bound: "\<forall>(p, t)\<in>set (zip [?p] [?t]). card (set (words p @ words t)) \<le> 1114112"
    by (simp add: wp wt card_insert_if)
  have apart: "one_word_apart (words ?p) (words ?t)"
    unfolding one_word_apart_def wp wt
    by (intro disjI1 exI [of _ "[str ''the'']"] exI [of _ "str ''slow''"]
        exI [of _ "str ''quick''"] exI [of _ "[str ''fox'']"]) (simp add: str_def)
  note main = wer_word_distance [where gd = "fixed_decoder slow_decoded" and s = small_batch, OF set_order_ok_remdups o t g bound]
  from main have p1: "wer_pair remdups ?p ?t = Inr (lev (words ?p) (words ?t))"
    and p2: "one_word_apart (words ?p) (words ?t) \<longrightarrow> wer_pair remdups ?p ?t = Inr 1"
    and tot: "snd (wer (fixed_decoder slow_decoded) remdups small_batch)
                = true_div (lev (words ?p) (words ?t)) 1"
    by auto
  from p2 apart have pair: "wer_pair remdups ?p ?t = Inr 1" by blast
  with p1 have "lev (words ?p) (words ?t) = 1" by simp
  with tot have total: "snd (wer (fixed_decoder slow_decoded) remdups small_batch) = Inr 1"
    by (simp add: true_div_def)
  from set_order_ok_remdups pair total show ?thesis by blast
qed

subsection \<open>\<open>accuracy_ignore_pad\<close>: the rows that the masking overwrites\<close>

lemma slice_fill_length [simp]: "length (slice_fill lo hi v rows) = length rows"
  by (simp add: slice_fill_def)


lemma fold_store:
  "fold (\<lambda>(start, stop) st. st\<lparr>output_t := slice_fill (start + 1) (nat stop) v (output_t st)\<rparr>)
        pairs s
   = s\<lparr>output_t := fold (\<lambda>(start, stop) rows. slice_fill (start + 1) (nat stop) v rows)
                         pairs (output_t s)\<rparr>"
  by (induction pairs arbitrary: s) (auto)

lemma fold_fill_length [simp]:
  "length (fold (\<lambda>(start, stop) rows. slice_fill (start + 1) (nat stop) v rows) pairs rows)
   = length rows"
  by (induction pairs arbitrary: rows) auto














lemma accuracy_ignore_pad_output:
  assumes "arange seq_len (int (length (target_t s)) + 1) seq_len = Inr ends"
  shows "output_t (fst (accuracy_ignore_pad s pad eos seq_len))
         = fold (\<lambda>(start, stop) rows. slice_fill (start + 1) (nat stop) (of_int pad) rows)
                (zip (nonzero_eq (target_t s) eos) ends) (output_t s)"
    and "target_t (fst (accuracy_ignore_pad s pad eos seq_len)) = target_t s"
  using assms unfolding accuracy_ignore_pad_def Let_def fold_store by simp_all

lemma accuracy_ignore_pad_target:
  "target_t (fst (accuracy_ignore_pad s pad eos seq_len)) = target_t s"
  unfolding accuracy_ignore_pad_def Let_def fold_store
  by (cases "arange seq_len (int (length (target_t s)) + 1) seq_len") simp_all





subsection \<open>What the metrics modify\<close>

lemma cer_targets:
  assumes "keeps_targets gd"
  shows "targets_t (fst (cer gd s)) = targets_t s"
proof (cases "shape_at (outputs_t s) 1")
  case (Inl e) then show ?thesis by (simp add: cer_def)
next
  case n: (Inr n)
  show ?thesis
  proof (cases "shape_at (targets_t s) 1")
    case (Inl e) with n show ?thesis by (simp add: cer_def)
  next
    case (Inr l)
    obtain s' dp dt where g: "gd s (replicate n l) = (s', dp, dt)"
      by (cases "gd s (replicate n l)") auto
    with assms have "targets_t s' = targets_t s"
      unfolding keeps_targets_def by (metis fst_conv)
    with n Inr g show ?thesis by (simp add: cer_def)
  qed
qed

lemma wer_targets:
  assumes "keeps_targets gd"
  shows "targets_t (fst (wer gd so s)) = targets_t s"
proof (cases "shape_at (outputs_t s) 1")
  case (Inl e) then show ?thesis by (simp add: wer_def)
next
  case n: (Inr n)
  show ?thesis
  proof (cases "shape_at (targets_t s) 1")
    case (Inl e) with n show ?thesis by (simp add: wer_def)
  next
    case (Inr l)
    obtain s' dp dt where g: "gd s (replicate n l) = (s', dp, dt)"
      by (cases "gd s (replicate n l)") auto
    with assms have "targets_t s' = targets_t s"
      unfolding keeps_targets_def by (metis fst_conv)
    with n Inr g show ?thesis by (simp add: wer_def split: sum.split)
  qed
qed

text \<open>
  C10. \<open>accuracy_ignore_pad\<close> leaves the target it is given as it is and writes the
  masking into the output of the caller: after the call the output is the result of
  the slice assignments, which differs from the output before the call in the example.
  \<open>cer\<close> and \<open>wer\<close> leave the targets as they are, for a decoder that does.
\<close>

theorem metrics_frame:
  "target_t (fst (accuracy_ignore_pad s pad eos seq_len)) = target_t s \<and>
   (\<forall>ends. arange seq_len (int (length (target_t s)) + 1) seq_len = Inr ends \<longrightarrow>
      output_t (fst (accuracy_ignore_pad s pad eos seq_len))
        = fold (\<lambda>(start, stop) rows. slice_fill (start + 1) (nat stop) (of_int pad) rows)
               (zip (nonzero_eq (target_t s) eos) ends) (output_t s)) \<and>
   output_t (fst (accuracy_ignore_pad one_eos_store 79 81 3)) \<noteq> output_t one_eos_store \<and>
   (keeps_targets gd \<longrightarrow>
      targets_t (fst (cer gd c)) = targets_t c \<and> targets_t (fst (wer gd so c)) = targets_t c)"
proof -
  have "output_t (fst (accuracy_ignore_pad one_eos_store 79 81 3))
        = [[0], [0], [79], [0], [79], [79]]"
    by (simp add: accuracy_ignore_pad_def one_eos_store_def arange_def
        nonzero_eq_def slice_fill_def enumerate_eq_zip upt_conv_Cons)
  then have "output_t (fst (accuracy_ignore_pad one_eos_store 79 81 3)) \<noteq> output_t one_eos_store"
    by (simp add: one_eos_store_def)
  with accuracy_ignore_pad_target [of s pad eos seq_len]
    accuracy_ignore_pad_output(1) [of seq_len s _ pad eos]
    cer_targets [of gd c] wer_targets [of gd so c]
  show ?thesis by blast
qed

theorem metrics_frame_witness:
  "keeps_targets (fixed_decoder fax_decoded) \<and>
   targets_t (fst (cer (fixed_decoder fax_decoded) small_batch)) = targets_t small_batch \<and>
   targets_t (fst (wer (fixed_decoder fax_decoded) remdups small_batch)) = targets_t small_batch \<and>
   output_t (fst (accuracy_ignore_pad one_eos_store 79 81 3)) = [[0], [0], [79], [0], [79], [79]]"
proof -
  have k: "keeps_targets (fixed_decoder fax_decoded)"
    by (simp add: keeps_targets_def fixed_decoder_def)
  have ar: "arange 3 (int (length (target_t one_eos_store)) + 1) 3 = Inr [3, 6]"
    by (simp add: one_eos_store_def arange_def upt_conv_Cons)
  note fr = metrics_frame [of one_eos_store 79 81 3 "fixed_decoder fax_decoded" small_batch remdups]
  from fr ar have "output_t (fst (accuracy_ignore_pad one_eos_store 79 81 3))
      = fold (\<lambda>(start, stop) rows. slice_fill (start + 1) (nat stop) (of_int 79) rows)
          (zip (nonzero_eq (target_t one_eos_store) 81) [3, 6]) (output_t one_eos_store)"
    by blast
  then have o: "output_t (fst (accuracy_ignore_pad one_eos_store 79 81 3))
      = [[0], [0], [79], [0], [79], [79]]"
    by (simp add: one_eos_store_def nonzero_eq_def slice_fill_def enumerate_eq_zip upt_conv_Cons)
  from fr k o show ?thesis by blast
qed

end
